theory Spec2Isabelle
  imports Complex_Main "HOL-Library.Word"
begin

section \<open>Recorded GPU allocation: the data model\<close>

text \<open>
  The development follows \<^verbatim>\<open>paddle/fluid/platform/device/gpu/gpu_info.cc\<close>
  (the CUDA branch of the preprocessor conditionals). \<^verbatim>\<open>size_t\<close> and
  \<^verbatim>\<open>uint64_t\<close> are 64-bit words, so \<open>+\<close>, \<open>-\<close> and the shift wrap around as in the
  program; \<^verbatim>\<open>void *\<close> is an address, compared as an unsigned number, with
  \<^verbatim>\<open>nullptr\<close> the address 0; \<^verbatim>\<open>int\<close> device ordinals are integers.
\<close>

type_synonym u64 = "64 word"
type_synonym addr = "64 word"

definition nullptr :: addr where
  "nullptr = 0"

text \<open>
  \<^verbatim>\<open>gpuError_t\<close>: the codes the program tells apart, and every other code of the
  driver under its number.
\<close>

datatype gpuError =
    gpuSuccess
  | gpuErrorOutOfMemory
  | cudaErrorCudartUnloading
  | gpuErrorOther nat

text \<open>
  Modelled from the spec: the macros \<^verbatim>\<open>PADDLE_ENFORCE_*\<close> and
  \<^verbatim>\<open>PADDLE_THROW\<close> of \<^verbatim>\<open>enforce.h\<close> are not among the sources. A failed
  check raises the error it is given (out of range, resource exhausted, unimplemented),
  and a driver code that is not success is fatal; control never comes back to the
  caller of the operation that raised.
\<close>

datatype error =
    ExternalError gpuError
  | OutOfRange
  | ResourceExhausted
  | Unimplemented

text \<open>
  The calls that leave the class: to the driver, to the device guard
  (\<^verbatim>\<open>CUDADeviceGuard\<close>, entered at its declaration and left at the end of its
  scope), to the memory statistics (\<^verbatim>\<open>DEVICE_MEMORY_STAT_UPDATE\<close>) and to the
  profiler (\<^verbatim>\<open>RecordMemEvent\<close>). Their code is not among the sources; an
  operation appends what it calls, in order and with the arguments, to the log of its
  helper. In \<open>Malloc\<close> the pointer given to \<^verbatim>\<open>RecordMemEvent\<close> is the output
  parameter \<^verbatim>\<open>ptr\<close> itself (a \<^verbatim>\<open>void **\<close>, where the caller keeps its pointer), not
  the address of the block; that place is not part of the model, and the entry keeps the
  device and the size. In \<open>Free\<close> it is the address of the block.
\<close>

datatype stat = Reserved | Allocated

datatype event =
    DeviceGuardEnter int
  | DeviceGuardExit int
  | CaptureModeGuard
  | CudaMalloc u64
  | CudaMallocManaged u64
  | CudaFree addr
  | CudaMemGetInfo
  | GetLastError
  | CuMemCreate u64
  | CuMemRelease
  | StatUpdate stat int u64
  | MemEventReservedAllocate int u64
  | MemEventReservedFree addr int u64

text \<open>
  \<^verbatim>\<open>class RecordedGpuMallocHelper\<close>. \<open>mtx\<close> tells whether the mutex was created,
  \<open>gpu_ptrs\<close> is the \<^verbatim>\<open>std::set<void *>\<close>, kept as the increasing list of its
  elements (the order its iterators walk).
\<close>

record RecordedGpuMallocHelper =
  dev_id :: int
  limit_size :: u64
  cur_size :: u64
  mtx :: bool
  gpu_ptrs :: "addr list"
  calls :: "event list"

definition NeedRecord :: "RecordedGpuMallocHelper \<Rightarrow> bool" where
  "NeedRecord h = (limit_size h \<noteq> 0)"

definition RecordedSize :: "RecordedGpuMallocHelper \<Rightarrow> u64" where
  "RecordedSize h = cur_size h"

definition LimitSize :: "RecordedGpuMallocHelper \<Rightarrow> u64" where
  "LimitSize h = limit_size h"

definition emit :: "event list \<Rightarrow> RecordedGpuMallocHelper \<Rightarrow> RecordedGpuMallocHelper" where
  "emit es h = h\<lparr>calls := calls h @ es\<rparr>"

text \<open>
  The constructor: the mutex exists only when recording, and with
  \<^verbatim>\<open>FLAGS_enable_gpu_memory_usage_log\<close> two statistics updates of 0 are made.
\<close>

definition new_helper :: "bool \<Rightarrow> int \<Rightarrow> u64 \<Rightarrow> RecordedGpuMallocHelper" where
  "new_helper usage_log d lmt =
     \<lparr>dev_id = d, limit_size = lmt, cur_size = 0, mtx = (lmt \<noteq> 0), gpu_ptrs = [],
      calls = (if usage_log then [StatUpdate Reserved d 0, StatUpdate Allocated d 0] else [])\<rparr>"

subsection \<open>The ordered set of addresses\<close>

text \<open>\<^verbatim>\<open>std::set::insert\<close>: the element goes to its place, and a present one is kept once.\<close>

fun set_insert :: "addr \<Rightarrow> addr list \<Rightarrow> addr list" where
  "set_insert p [] = [p]"
| "set_insert p (a # as) =
     (if p < a then p # a # as else if p = a then a # as else a # set_insert p as)"

text \<open>\<^verbatim>\<open>std::set::erase\<close> by key.\<close>

fun set_erase :: "addr \<Rightarrow> addr list \<Rightarrow> addr list" where
  "set_erase p [] = []"
| "set_erase p (a # as) = (if p = a then as else a # set_erase p as)"

text \<open>
  \<^verbatim>\<open>std::set::upper_bound\<close>: the position of the first element greater than the key,
  the length of the list standing for \<^verbatim>\<open>end()\<close> and 0 for \<^verbatim>\<open>begin()\<close>.
\<close>

fun upper_bound :: "addr list \<Rightarrow> addr \<Rightarrow> nat" where
  "upper_bound [] p = 0"
| "upper_bound (a # as) p = (if p < a then 0 else Suc (upper_bound as p))"

subsection \<open>Error normalisation\<close>

text \<open>
  Modelled from the spec: \<^verbatim>\<open>PADDLE_ENFORCE_GPU_SUCCESS\<close> is not among the sources;
  any code other than success is fatal, and the error carries the code.
\<close>

definition PADDLE_ENFORCE_GPU_SUCCESS :: "gpuError \<Rightarrow> error + unit" where
  "PADDLE_ENFORCE_GPU_SUCCESS st = (if st = gpuSuccess then Inr () else Inl (ExternalError st))"

text \<open>
  \<^verbatim>\<open>RaiseNonOutOfMemoryError(&status)\<close>, with \<open>pending\<close> what
  \<^verbatim>\<open>GpuGetLastError()\<close> answers when it is called. The result is the final
  \<^verbatim>\<open>*status\<close> and the calls made.
\<close>

definition RaiseNonOutOfMemoryError :: "gpuError \<Rightarrow> gpuError \<Rightarrow> error + (gpuError \<times> event list)" where
  "RaiseNonOutOfMemoryError status pending =
     (let status1 = (if status = gpuErrorOutOfMemory then gpuSuccess else status) in
      case PADDLE_ENFORCE_GPU_SUCCESS status1 of
        Inl e \<Rightarrow> Inl e
      | Inr _ \<Rightarrow>
          (let status2 = (if pending = gpuErrorOutOfMemory then gpuSuccess else pending) in
           case PADDLE_ENFORCE_GPU_SUCCESS status2 of
             Inl e \<Rightarrow> Inl e
           | Inr _ \<Rightarrow> Inr (status2, [GetLastError])))"

subsection \<open>Malloc and Free\<close>

text \<open>
  The driver is outside the program: what it answers to one call is an argument.
  \<open>m_status\<close> is the result of \<^verbatim>\<open>cudaMalloc\<close> or \<^verbatim>\<open>cudaMallocManaged\<close>,
  \<open>m_ptr\<close> the content of \<^verbatim>\<open>*ptr\<close> after it, \<open>m_last\<close> the pending error that
  \<^verbatim>\<open>GpuGetLastError()\<close> would report.
\<close>

record malloc_reply =
  m_status :: gpuError
  m_ptr :: addr
  m_last :: gpuError

text \<open>
  \<^verbatim>\<open>Malloc(ptr, size, malloc_managed_memory)\<close>. \<open>testing\<close> is
  \<^verbatim>\<open>PADDLE_WITH_TESTING\<close>, \<open>ptr\<close> the content of \<^verbatim>\<open>*ptr\<close> at the call. The
  result is the returned code, the content of \<^verbatim>\<open>*ptr\<close> and the helper afterwards.
\<close>

definition Malloc ::
  "bool \<Rightarrow> RecordedGpuMallocHelper \<Rightarrow> addr \<Rightarrow> u64 \<Rightarrow> bool \<Rightarrow> malloc_reply \<Rightarrow>
   error + (gpuError \<times> addr \<times> RecordedGpuMallocHelper)" where
  "Malloc testing h ptr sz managed r =
     (if NeedRecord h \<and> cur_size h + sz > limit_size h then Inr (gpuErrorOutOfMemory, ptr, h)
      else
        let h1 = emit [DeviceGuardEnter (dev_id h), CaptureModeGuard,
                       if managed then CudaMallocManaged sz else CudaMalloc sz] h;
            result = m_status r;
            p = m_ptr r
        in
          if result = gpuSuccess then
            (let h2 = h1\<lparr>cur_size := cur_size h1 + sz\<rparr>;
                 h3 = emit [StatUpdate Reserved (dev_id h) sz,
                            MemEventReservedAllocate (dev_id h) sz] h2;
                 h4 = (if testing then h3\<lparr>gpu_ptrs := set_insert p (gpu_ptrs h3)\<rparr> else h3)
             in Inr (gpuSuccess, p, emit [DeviceGuardExit (dev_id h)] h4))
          else
            (case RaiseNonOutOfMemoryError result (m_last r) of
               Inl e \<Rightarrow> Inl e
             | Inr (_, es) \<Rightarrow>
                 Inr (gpuErrorOutOfMemory, p, emit (es @ [DeviceGuardExit (dev_id h)]) h1)))"

text \<open>
  \<^verbatim>\<open>Free(ptr, size)\<close>, with \<open>err\<close> the result of \<^verbatim>\<open>cudaFree\<close>. The statistics
  update receives \<^verbatim>\<open>-size\<close>, the negation of an unsigned number.
\<close>

definition Free ::
  "bool \<Rightarrow> RecordedGpuMallocHelper \<Rightarrow> addr \<Rightarrow> u64 \<Rightarrow> gpuError \<Rightarrow> error + RecordedGpuMallocHelper" where
  "Free testing h ptr sz err =
     (let h1 = emit [DeviceGuardEnter (dev_id h), CudaFree ptr] h in
      case
        (if err \<noteq> cudaErrorCudartUnloading then
           (case PADDLE_ENFORCE_GPU_SUCCESS err of
              Inl e \<Rightarrow> Inl e
            | Inr _ \<Rightarrow>
                Inr (emit [StatUpdate Reserved (dev_id h) (- sz),
                           MemEventReservedFree ptr (dev_id h) sz]
                       (h1\<lparr>cur_size := cur_size h1 - sz\<rparr>)))
         else Inr (emit [GetLastError] h1))
      of
        Inl e \<Rightarrow> Inl e
      | Inr h2 \<Rightarrow>
          Inr (emit [DeviceGuardExit (dev_id h)]
                 (if testing then h2\<lparr>gpu_ptrs := set_erase ptr (gpu_ptrs h2)\<rparr> else h2)))"

subsection \<open>GetMemInfo\<close>

text \<open>
  What the driver answers to \<^verbatim>\<open>cudaMemGetInfo\<close>: its result, the contents of
  \<^verbatim>\<open>*actual_avail\<close> and \<^verbatim>\<open>*actual_total\<close> after the call, and the pending
  error.
\<close>

record meminfo_reply =
  g_status :: gpuError
  g_avail :: u64
  g_total :: u64
  g_last :: gpuError

text \<open>The four output parameters of \<^verbatim>\<open>GetMemInfo\<close> and its boolean result.\<close>

record mem_info =
  mi_avail :: u64
  mi_total :: u64
  mi_actual_avail :: u64
  mi_actual_total :: u64
  mi_clamped :: bool

definition GetMemInfo ::
  "RecordedGpuMallocHelper \<Rightarrow> meminfo_reply \<Rightarrow> error + (mem_info \<times> RecordedGpuMallocHelper)" where
  "GetMemInfo h r =
     (let h1 = emit [DeviceGuardEnter (dev_id h), CudaMemGetInfo] h;
          result = g_status r;
          actual_avail = (if result \<noteq> gpuSuccess then 0 else g_avail r);
          actual_total = g_total r
      in
        case RaiseNonOutOfMemoryError result (g_last r) of
          Inl e \<Rightarrow> Inl e
        | Inr (_, es) \<Rightarrow>
            (let h2 = emit (es @ [DeviceGuardExit (dev_id h)]) h1 in
             if NeedRecord h then
               (let avail = min actual_avail (limit_size h - cur_size h);
                    total = min actual_total (limit_size h)
                in Inr (\<lparr>mi_avail = avail, mi_total = total, mi_actual_avail = actual_avail,
                          mi_actual_total = actual_total, mi_clamped = (total < actual_total)\<rparr>, h2))
             else
               Inr (\<lparr>mi_avail = actual_avail, mi_total = actual_total,
                      mi_actual_avail = actual_avail, mi_actual_total = actual_total,
                      mi_clamped = False\<rparr>, h2)))"

subsection \<open>MemCreate and MemRelease\<close>

datatype CUresult = CUDA_SUCCESS | CUDA_ERROR nat

definition MemCreate ::
  "RecordedGpuMallocHelper \<Rightarrow> u64 \<Rightarrow> CUresult \<Rightarrow> CUresult \<times> RecordedGpuMallocHelper" where
  "MemCreate h sz result =
     (let h1 = emit [CuMemCreate sz] h in
      if result = CUDA_SUCCESS then (result, h1\<lparr>cur_size := cur_size h1 + sz\<rparr>)
      else (result, h1))"

definition MemRelease ::
  "RecordedGpuMallocHelper \<Rightarrow> u64 \<Rightarrow> CUresult \<Rightarrow> CUresult \<times> RecordedGpuMallocHelper" where
  "MemRelease h sz result =
     (let h1 = emit [CuMemRelease] h in
      if result = CUDA_SUCCESS then (result, h1\<lparr>cur_size := cur_size h1 - sz\<rparr>)
      else (result, h1))"

subsection \<open>GetBasePtr\<close>

text \<open>
  With \<^verbatim>\<open>PADDLE_WITH_TESTING\<close> the iterator \<^verbatim>\<open>upper_bound(ptr)\<close> is stepped back
  once unless it is \<^verbatim>\<open>begin()\<close>; without it the function throws.
\<close>

definition GetBasePtr :: "bool \<Rightarrow> RecordedGpuMallocHelper \<Rightarrow> addr \<Rightarrow> error + addr" where
  "GetBasePtr testing h ptr =
     (if testing then
        (let it = upper_bound (gpu_ptrs h) ptr in
         if it = 0 then Inr nullptr else Inr (gpu_ptrs h ! (it - 1)))
      else Inl Unimplemented)"

subsection \<open>Double precision\<close>

text \<open>
  \<^verbatim>\<open>FLAGS_fraction_of_gpu_memory_to_use\<close> is a \<^verbatim>\<open>double\<close>, and the program
  multiplies a \<^verbatim>\<open>size_t\<close> by it. A finite \<^verbatim>\<open>double\<close> is a number \<open>m * 2 ^ e\<close>
  with integers \<open>m\<close> and \<open>e\<close>, kept as \<open>Double m e\<close>; \<open>valof\<close> is the number it
  stands for. The \<open>m\<close> of a \<^verbatim>\<open>double\<close> has at most 53 binary digits; nothing below
  depends on that of the flag, since every result is rounded. The flag is taken to be
  finite.
\<close>

datatype double = Double int int

definition valof :: "double \<Rightarrow> real" where
  "valof d = (case d of Double m e \<Rightarrow>
     if 0 \<le> e then of_int m * 2 ^ nat e else of_int m / 2 ^ nat (- e))"

text \<open>The number of binary digits of a natural number.\<close>

fun bit_length :: "nat \<Rightarrow> nat" where
  "bit_length n = (if n = 0 then 0 else Suc (bit_length (n div 2)))"

declare bit_length.simps [simp del]

text \<open>
  The result of an arithmetic operation in \<^verbatim>\<open>double\<close> is the exact result rounded to
  53 significant binary digits, to the nearest and, halfway between two, to the one
  with an even last digit. The range of the exponent is not limited here: a result
  beyond the range of \<^verbatim>\<open>double\<close> is beyond that of \<^verbatim>\<open>size_t\<close> as well, and one
  below the least normal number is below 1 either way, which is all that the
  conversion to \<^verbatim>\<open>size_t\<close> sees.
\<close>

definition round_to_double :: "int \<Rightarrow> int \<Rightarrow> double" where
  "round_to_double m e =
     (let n = bit_length (nat \<bar>m\<bar>) in
      if n \<le> 53 then Double m e
      else
        let s = n - 53;
            q = \<bar>m\<bar> div 2 ^ s;
            r = \<bar>m\<bar> mod 2 ^ s;
            half = 2 ^ (s - 1);
            q' = (if r > half \<or> (r = half \<and> odd q) then q + 1 else q)
        in Double (sgn m * q') (e + int s))"

text \<open>The conversion of a \<^verbatim>\<open>size_t\<close> to \<^verbatim>\<open>double\<close>, and the product of two doubles.\<close>

definition size_t_to_double :: "u64 \<Rightarrow> double" where
  "size_t_to_double a = round_to_double (uint a) 0"

definition double_mult :: "double \<Rightarrow> double \<Rightarrow> double" where
  "double_mult x y =
     (case x of Double m1 e1 \<Rightarrow> case y of Double m2 e2 \<Rightarrow> round_to_double (m1 * m2) (e1 + e2))"

text \<open>
  The conversion of a \<^verbatim>\<open>double\<close> to \<^verbatim>\<open>size_t\<close> drops the fractional part. For a
  value that does not fit the behaviour of the program is undefined: \<open>None\<close>.
\<close>

definition double_trunc :: "double \<Rightarrow> int" where
  "double_trunc d = (case d of Double m e \<Rightarrow>
     if 0 \<le> e then m * 2 ^ nat e else sgn m * (\<bar>m\<bar> div 2 ^ nat (- e)))"


subsection \<open>The sizes to reserve\<close>

text \<open>The flags the program reads.\<close>

record flags =
  FLAGS_initial_gpu_memory_in_mb :: u64
  FLAGS_reallocate_gpu_memory_in_mb :: u64
  FLAGS_gpu_memory_limit_mb :: u64
  FLAGS_enable_gpu_memory_usage_log :: bool
  FLAGS_fraction_of_gpu_memory_to_use :: double




subsection \<open>The table of helpers\<close>

text \<open>
  The static vector \<^verbatim>\<open>instances_\<close> and the \<^verbatim>\<open>once_flag_\<close>. A pointer to a helper
  is its position in the vector.
\<close>

record registry =
  instances :: "RecordedGpuMallocHelper list"
  once_flag :: bool

definition empty_registry :: registry where
  "empty_registry = \<lparr>instances = [], once_flag = False\<rparr>"

text \<open>The loop of the initialiser, from \<open>i\<close> on.\<close>

function emplace_from :: "flags \<Rightarrow> int \<Rightarrow> int \<Rightarrow> RecordedGpuMallocHelper list \<Rightarrow> RecordedGpuMallocHelper list" where
  "emplace_from fl dev_cnt i acc =
     (if i < dev_cnt then
        emplace_from fl dev_cnt (i + 1)
          (acc @ [new_helper (FLAGS_enable_gpu_memory_usage_log fl) i
                    (push_bit 20 (FLAGS_gpu_memory_limit_mb fl))])
      else acc)"
  by pat_completeness auto
termination
  by (relation "measure (\<lambda>(fl, dev_cnt, i, acc). nat (dev_cnt - i))") auto

declare emplace_from.simps [simp del]

text \<open>\<^verbatim>\<open>std::call_once\<close>, with \<open>dev_cnt\<close> the answer of \<^verbatim>\<open>GetGPUDeviceCount()\<close>.\<close>

definition call_once :: "flags \<Rightarrow> int \<Rightarrow> registry \<Rightarrow> registry" where
  "call_once fl dev_cnt reg =
     (if once_flag reg then reg
      else \<lparr>instances = emplace_from fl dev_cnt 0 (instances reg), once_flag = True\<rparr>)"

definition Instance :: "flags \<Rightarrow> int \<Rightarrow> registry \<Rightarrow> int \<Rightarrow> (error + nat) \<times> registry" where
  "Instance fl dev_cnt reg d =
     (let reg1 = call_once fl dev_cnt reg in
      if \<not> d \<ge> 0 then (Inl OutOfRange, reg1)
      else if \<not> d < int (length (instances reg1)) then (Inl OutOfRange, reg1)
      else (Inr (nat d), reg1))"

definition RecordedGpuMalloc ::
  "bool \<Rightarrow> flags \<Rightarrow> int \<Rightarrow> registry \<Rightarrow> addr \<Rightarrow> u64 \<Rightarrow> int \<Rightarrow> bool \<Rightarrow> malloc_reply \<Rightarrow>
   (error + (gpuError \<times> addr)) \<times> registry" where
  "RecordedGpuMalloc testing fl dev_cnt reg ptr sz d managed r =
     (case Instance fl dev_cnt reg d of
        (Inl e, reg1) \<Rightarrow> (Inl e, reg1)
      | (Inr i, reg1) \<Rightarrow>
          (case Malloc testing (instances reg1 ! i) ptr sz managed r of
             Inl e \<Rightarrow> (Inl e, reg1)
           | Inr (c, p, h') \<Rightarrow> (Inr (c, p), reg1\<lparr>instances := (instances reg1)[i := h']\<rparr>)))"

definition RecordedGpuFree ::
  "bool \<Rightarrow> flags \<Rightarrow> int \<Rightarrow> registry \<Rightarrow> addr \<Rightarrow> u64 \<Rightarrow> int \<Rightarrow> gpuError \<Rightarrow> (error + unit) \<times> registry" where
  "RecordedGpuFree testing fl dev_cnt reg p sz d err =
     (case Instance fl dev_cnt reg d of
        (Inl e, reg1) \<Rightarrow> (Inl e, reg1)
      | (Inr i, reg1) \<Rightarrow>
          (case Free testing (instances reg1 ! i) p sz err of
             Inl e \<Rightarrow> (Inl e, reg1)
           | Inr h' \<Rightarrow> (Inr (), reg1\<lparr>instances := (instances reg1)[i := h']\<rparr>)))"

subsection \<open>Sequences of calls\<close>

text \<open>
  A sequential history of one helper: each step is a call of \<open>Malloc\<close> or of \<open>Free\<close>
  together with the driver's answer. \<open>run\<close> follows the history and keeps, next to the
  helper, the blocks handed out and not yet given back (address and size). It yields
  \<open>None\<close> when a step is not a successful call: a \<open>Malloc\<close> that does not return
  \<^verbatim>\<open>gpuSuccess\<close>, or a \<open>Free\<close> that is not answered \<^verbatim>\<open>gpuSuccess\<close> or that
  names a block which is not outstanding with that size. The blocks a driver hands out
  are disjoint parts of a 64-bit address space, so a success that would bring the
  outstanding bytes to \<open>2 ^ 64\<close> or more is no answer of a driver either.
\<close>

datatype request =
    Allocate u64 bool malloc_reply
  | Release addr u64 gpuError

definition outstanding_bytes :: "(addr \<times> u64) list \<Rightarrow> nat" where
  "outstanding_bytes out = sum_list (map (\<lambda>b. unat (snd b)) out)"

fun run ::
  "bool \<Rightarrow> RecordedGpuMallocHelper \<Rightarrow> (addr \<times> u64) list \<Rightarrow> request list \<Rightarrow>
   (RecordedGpuMallocHelper \<times> (addr \<times> u64) list) option" where
  "run testing h out [] = Some (h, out)"
| "run testing h out (Allocate sz managed r # rs) =
     (case Malloc testing h nullptr sz managed r of
        Inr (gpuSuccess, p, h') \<Rightarrow>
          (if outstanding_bytes out + unat sz < 2 ^ 64 then run testing h' ((p, sz) # out) rs
           else None)
      | _ \<Rightarrow> None)"
| "run testing h out (Release p sz err # rs) =
     (if (p, sz) \<in> set out \<and> err = gpuSuccess then
        (case Free testing h p sz err of
           Inr h' \<Rightarrow> run testing h' (remove1 (p, sz) out) rs
         | Inl e \<Rightarrow> None)
      else None)"

text \<open>
  The recorded size accounts for the outstanding blocks: it is the sum of their sizes
  and, on a helper that records, it is within the limit.
\<close>

definition accounted :: "RecordedGpuMallocHelper \<Rightarrow> (addr \<times> u64) list \<Rightarrow> bool" where
  "accounted h out =
     (unat (cur_size h) = outstanding_bytes out \<and>
      (if NeedRecord h then cur_size h \<le> limit_size h else True))"

text \<open>
  The table of a process with \<open>dev_cnt\<close> devices: empty before the initialiser has
  run, and afterwards one helper for each ordinal \<open>0, \<dots>, dev_cnt - 1\<close>, in order.
\<close>

definition table_of :: "int \<Rightarrow> registry \<Rightarrow> bool" where
  "table_of dev_cnt reg =
     (if once_flag reg then map dev_id (instances reg) = [0..dev_cnt - 1]
      else instances reg = [])"

section \<open>The limit check\<close>

text \<open>
  The comparison of \<open>Malloc\<close> is made on the 64-bit sum. That sum is the sum of the
  two numbers whenever the latter is below \<open>2 ^ 64\<close>.
\<close>

lemma unat_add_fits:
  fixes a b :: u64
  assumes "unat a + unat b < 2 ^ 64"
  shows "unat (a + b) = unat a + unat b"
  using assms by (simp add: unat_add_lem [THEN iffD1])

lemma unat_sub_fits:
  fixes a b :: u64
  assumes "unat b \<le> unat a"
  shows "unat (a - b) = unat a - unat b"
  using assms by (simp add: unat_sub word_le_nat_alt)

lemma over_limit_nat:
  fixes c sz l :: u64
  assumes "unat c + unat sz < 2 ^ 64"
  shows "c + sz > l \<longleftrightarrow> unat c + unat sz > unat l"
  using assms by (simp add: word_less_nat_alt unat_add_fits)

text \<open>
  C1, as it is stated, is about the sum of the recorded size and the request. The
  program compares the sum it computes in \<^verbatim>\<open>uint64_t\<close>, which wraps. With a limit of
  1 MiB and 16 bytes recorded, a request of \<open>2 ^ 64 - 16\<close> bytes makes a sum far above
  the limit; the computed sum is 0, the check lets the request through and the driver
  is called (and answers that it is out of memory).
\<close>

theorem Malloc_over_limit_counterexample:
  "limit_size (new_helper False 0 1048576\<lparr>cur_size := 16\<rparr>) \<noteq> 0 \<and>
   unat (cur_size (new_helper False 0 1048576\<lparr>cur_size := 16\<rparr>))
       + unat (18446744073709551600 :: u64)
     > unat (limit_size (new_helper False 0 1048576\<lparr>cur_size := 16\<rparr>)) \<and>
   Malloc False (new_helper False 0 1048576\<lparr>cur_size := 16\<rparr>) 0 18446744073709551600 False
       \<lparr>m_status = gpuErrorOutOfMemory, m_ptr = 0, m_last = gpuErrorOutOfMemory\<rparr>
     = Inr (gpuErrorOutOfMemory, 0,
            new_helper False 0 1048576
              \<lparr>cur_size := 16,
               calls := [DeviceGuardEnter 0, CaptureModeGuard,
                         CudaMalloc 18446744073709551600, GetLastError,
                         DeviceGuardExit 0]\<rparr>)"
  by (simp add: Malloc_def new_helper_def NeedRecord_def Let_def emit_def
      RaiseNonOutOfMemoryError_def PADDLE_ENFORCE_GPU_SUCCESS_def)

text \<open>
  C1, amended. On a helper that records (a nonzero limit), a request whose size added
  to the recorded size in \<^verbatim>\<open>uint64_t\<close>, as the program adds them, exceeds the limit
  is answered \<^verbatim>\<open>gpuErrorOutOfMemory\<close> at once: the helper is returned as it was, so
  the recorded size is unchanged and nothing was called (the log of calls is the same),
  and \<^verbatim>\<open>*ptr\<close> is untouched. By \<open>over_limit_nat\<close> the sum is the sum of the two
  numbers whenever that is below \<open>2 ^ 64\<close>.
\<close>

theorem Malloc_over_limit:
  assumes "limit_size h \<noteq> 0" and "cur_size h + sz > limit_size h"
  shows "Malloc testing h ptr sz managed r = Inr (gpuErrorOutOfMemory, ptr, h)"
  using assms by (simp add: Malloc_def NeedRecord_def)

theorem Malloc_over_limit_witness:
  "limit_size (new_helper False 0 100\<lparr>cur_size := 60\<rparr>) \<noteq> 0 \<and>
   cur_size (new_helper False 0 100\<lparr>cur_size := 60\<rparr>) + 50
     > limit_size (new_helper False 0 100\<lparr>cur_size := 60\<rparr>) \<and>
   Malloc True (new_helper False 0 100\<lparr>cur_size := 60\<rparr>) 7 50 False
       \<lparr>m_status = gpuSuccess, m_ptr = 4096, m_last = gpuSuccess\<rparr>
     = Inr (gpuErrorOutOfMemory, 7, new_helper False 0 100\<lparr>cur_size := 60\<rparr>)"
proof -
  let ?h = "new_helper False 0 100\<lparr>cur_size := 60\<rparr>"
  have a: "limit_size ?h \<noteq> 0" by (simp add: new_helper_def)
  have b: "cur_size ?h + 50 > limit_size ?h" by (simp add: new_helper_def)
  show ?thesis using a b Malloc_over_limit [OF a b] by simp
qed

section \<open>The recorded size\<close>

lemma Malloc_success:
  assumes "Malloc testing h ptr sz managed r = Inr (gpuSuccess, p, h')"
  shows "cur_size h' = cur_size h + sz \<and> limit_size h' = limit_size h \<and> p = m_ptr r \<and>
         \<not> (NeedRecord h \<and> cur_size h + sz > limit_size h)"
  using assms
  by (auto simp: Malloc_def Let_def emit_def split: if_splits sum.splits prod.splits)

lemma Malloc_succeeds:
  assumes "\<not> (NeedRecord h \<and> cur_size h + sz > limit_size h)" and "m_status r = gpuSuccess"
  shows "\<exists>h'. Malloc testing h ptr sz managed r = Inr (gpuSuccess, m_ptr r, h') \<and>
              cur_size h' = cur_size h + sz \<and> limit_size h' = limit_size h"
  using assms by (auto simp: Malloc_def Let_def emit_def)

lemma Free_success:
  assumes "Free testing h p sz gpuSuccess = Inr h'"
  shows "cur_size h' = cur_size h - sz \<and> limit_size h' = limit_size h"
  using assms
  by (auto simp: Free_def Let_def emit_def PADDLE_ENFORCE_GPU_SUCCESS_def split: if_splits)

lemma Free_succeeds:
  "\<exists>h'. Free testing h p sz gpuSuccess = Inr h' \<and> cur_size h' = cur_size h - sz \<and>
         limit_size h' = limit_size h"
  by (auto simp: Free_def Let_def emit_def PADDLE_ENFORCE_GPU_SUCCESS_def)

lemma outstanding_bytes_Cons:
  "outstanding_bytes ((p, sz) # out) = unat sz + outstanding_bytes out"
  by (simp add: outstanding_bytes_def)

lemma outstanding_bytes_remove1:
  assumes "(p, sz) \<in> set out"
  shows "unat sz \<le> outstanding_bytes out \<and>
         outstanding_bytes (remove1 (p, sz) out) = outstanding_bytes out - unat sz"
  using assms
proof (induction out)
  case Nil
  then show ?case by simp
next
  case (Cons b out)
  show ?case
  proof (cases "b = (p, sz)")
    case True
    then show ?thesis by (simp add: outstanding_bytes_def)
  next
    case False
    with Cons.prems have "(p, sz) \<in> set out" by simp
    with Cons.IH have "unat sz \<le> outstanding_bytes out"
      and "outstanding_bytes (remove1 (p, sz) out) = outstanding_bytes out - unat sz" by simp_all
    with False show ?thesis by (simp add: outstanding_bytes_def)
  qed
qed

text \<open>Every successful step keeps the account, and no step changes the limit.\<close>

lemma run_accounted:
  assumes "run testing h out rs = Some (h', out')" and "accounted h out"
  shows "accounted h' out' \<and> limit_size h' = limit_size h"
  using assms
proof (induction rs arbitrary: h out)
  case Nil
  then show ?case by simp
next
  case (Cons q rs)
  show ?case
  proof (cases q)
    case (Allocate sz managed r)
    from Cons.prems(1) Allocate obtain p h1 where
      m: "Malloc testing h nullptr sz managed r = Inr (gpuSuccess, p, h1)"
      and fits: "outstanding_bytes out + unat sz < 2 ^ 64"
      and rest: "run testing h1 ((p, sz) # out) rs = Some (h', out')"
      by (auto split: sum.splits prod.splits gpuError.splits if_splits)
    from Malloc_success [OF m] have c: "cur_size h1 = cur_size h + sz"
      and l: "limit_size h1 = limit_size h"
      and chk: "\<not> (NeedRecord h \<and> cur_size h + sz > limit_size h)" by simp_all
    from Cons.prems(2) have eq: "unat (cur_size h) = outstanding_bytes out"
      by (simp add: accounted_def)
    with fits have "unat (cur_size h + sz) = unat (cur_size h) + unat sz"
      by (simp add: unat_add_fits)
    with eq c have e1: "unat (cur_size h1) = outstanding_bytes ((p, sz) # out)"
      by (simp add: outstanding_bytes_Cons)
    from chk c l have "if NeedRecord h1 then cur_size h1 \<le> limit_size h1 else True"
      by (auto simp: NeedRecord_def)
    with e1 have "accounted h1 ((p, sz) # out)" by (simp add: accounted_def)
    from Cons.IH [OF rest this] l show ?thesis by simp
  next
    case (Release p sz err)
    from Cons.prems(1) Release obtain h1 where
      mem: "(p, sz) \<in> set out" and ok: "err = gpuSuccess"
      and f: "Free testing h p sz gpuSuccess = Inr h1"
      and rest: "run testing h1 (remove1 (p, sz) out) rs = Some (h', out')"
      by (auto split: sum.splits if_splits)
    from Free_success [OF f] have c: "cur_size h1 = cur_size h - sz"
      and l: "limit_size h1 = limit_size h" by simp_all
    from Cons.prems(2) have eq: "unat (cur_size h) = outstanding_bytes out"
      and le: "if NeedRecord h then cur_size h \<le> limit_size h else True"
      by (simp_all add: accounted_def)
    from outstanding_bytes_remove1 [OF mem] have a: "unat sz \<le> outstanding_bytes out"
      and b: "outstanding_bytes (remove1 (p, sz) out) = outstanding_bytes out - unat sz"
      by simp_all
    from a eq have s: "unat (cur_size h - sz) = unat (cur_size h) - unat sz"
      by (simp add: unat_sub_fits)
    with eq b c have e1: "unat (cur_size h1) = outstanding_bytes (remove1 (p, sz) out)" by simp
    from s c have "unat (cur_size h1) \<le> unat (cur_size h)" by simp
    then have "cur_size h1 \<le> cur_size h" by (simp add: word_le_nat_alt)
    with le l have "if NeedRecord h1 then cur_size h1 \<le> limit_size h1 else True"
      by (auto simp: NeedRecord_def)
    with e1 have "accounted h1 (remove1 (p, sz) out)" by (simp add: accounted_def)
    from Cons.IH [OF rest this] l show ?thesis by simp
  qed
qed

lemma accounted_new_helper: "accounted (new_helper usage_log d L) []"
  by (simp add: accounted_def new_helper_def outstanding_bytes_def NeedRecord_def)

text \<open>
  C2. On a device with a limit \<open>L > 0\<close>, after any sequential history of successful
  \<open>Malloc\<close> and \<open>Free\<close> calls on the freshly constructed helper, the recorded size is
  the sum of the sizes of the blocks that are outstanding, and it is at most \<open>L\<close>.
\<close>

theorem recorded_size_accounts:
  assumes "L \<noteq> 0"
      and "run testing (new_helper usage_log d L) [] rs = Some (h, out)"
  shows "unat (cur_size h) = outstanding_bytes out \<and> cur_size h \<le> L \<and> limit_size h = L"
proof -
  from run_accounted [OF assms(2) accounted_new_helper]
  have a: "accounted h out" and l: "limit_size h = L"
    by (simp_all add: new_helper_def)
  with assms(1) show ?thesis by (simp add: accounted_def NeedRecord_def)
qed

text \<open>
  The history of Scenario A: with the limit 100, a block of 60 is allocated and freed,
  then a block of 50 is allocated.
\<close>

theorem recorded_size_accounts_witness:
  "(100 :: u64) \<noteq> 0 \<and>
   (\<exists>h. run True (new_helper False 0 100) []
           [Allocate 60 False \<lparr>m_status = gpuSuccess, m_ptr = 4096, m_last = gpuSuccess\<rparr>,
            Release 4096 60 gpuSuccess,
            Allocate 50 False \<lparr>m_status = gpuSuccess, m_ptr = 8192, m_last = gpuSuccess\<rparr>]
         = Some (h, [(8192, 50)]) \<and>
        unat (cur_size h) = outstanding_bytes [(8192, 50)] \<and> cur_size h \<le> 100 \<and>
        limit_size h = 100)"
proof -
  let ?rs = "[Allocate 60 False \<lparr>m_status = gpuSuccess, m_ptr = 4096, m_last = gpuSuccess\<rparr>,
              Release 4096 60 gpuSuccess,
              Allocate 50 False \<lparr>m_status = gpuSuccess, m_ptr = 8192, m_last = gpuSuccess\<rparr>]"
  have "\<exists>h. run True (new_helper False 0 100) [] ?rs = Some (h, [(8192, 50)])"
    by (simp add: new_helper_def Malloc_def Free_def NeedRecord_def emit_def Let_def
        PADDLE_ENFORCE_GPU_SUCCESS_def outstanding_bytes_def nullptr_def)
  then obtain h where r: "run True (new_helper False 0 100) [] ?rs = Some (h, [(8192, 50)])" ..
  have n: "(100 :: u64) \<noteq> 0" by simp
  from recorded_size_accounts [OF n r] r n show ?thesis by blast
qed

text \<open>
  C9. The counter is kept also when nothing is recorded (the limit is 0): a successful
  \<open>Malloc\<close> adds the size to it and a successful \<open>Free\<close> subtracts it, so that
  \<open>RecordedSize\<close> is the sum of the outstanding sizes after any sequential history of
  successful calls, while \<open>NeedRecord\<close> answers false throughout.
\<close>

theorem recorded_without_limit:
  assumes "limit_size h = 0"
  shows "\<not> NeedRecord h \<and>
         (m_status r = gpuSuccess \<longrightarrow>
            (\<exists>h'. Malloc testing h ptr sz managed r = Inr (gpuSuccess, m_ptr r, h') \<and>
                  RecordedSize h' = RecordedSize h + sz \<and> \<not> NeedRecord h')) \<and>
         (\<exists>h'. Free testing h p sz' gpuSuccess = Inr h' \<and>
               RecordedSize h' = RecordedSize h - sz' \<and> \<not> NeedRecord h') \<and>
         (\<forall>rs hn out. cur_size h = 0 \<and> run testing h [] rs = Some (hn, out) \<longrightarrow>
            unat (RecordedSize hn) = outstanding_bytes out \<and> \<not> NeedRecord hn)"
proof -
  from assms have n: "\<not> NeedRecord h" by (simp add: NeedRecord_def)
  have m: "\<exists>h'. Malloc testing h ptr sz managed r = Inr (gpuSuccess, m_ptr r, h') \<and>
                RecordedSize h' = RecordedSize h + sz \<and> \<not> NeedRecord h'"
    if "m_status r = gpuSuccess"
    using Malloc_succeeds [of h sz r testing ptr managed] n that assms
    by (auto simp: RecordedSize_def NeedRecord_def)
  have f: "\<exists>h'. Free testing h p sz' gpuSuccess = Inr h' \<and>
                RecordedSize h' = RecordedSize h - sz' \<and> \<not> NeedRecord h'"
    using Free_succeeds [of testing h p sz'] assms
    by (auto simp: RecordedSize_def NeedRecord_def)
  have t: "unat (RecordedSize hn) = outstanding_bytes out \<and> \<not> NeedRecord hn"
    if "cur_size h = 0 \<and> run testing h [] rs = Some (hn, out)" for rs hn out
  proof -
    from that n have "accounted h []"
      by (simp add: accounted_def outstanding_bytes_def)
    with that run_accounted [of testing h "[]" rs hn out]
    have "accounted hn out" and "limit_size hn = limit_size h" by simp_all
    with assms show ?thesis by (simp add: accounted_def RecordedSize_def NeedRecord_def)
  qed
  from n m f t show ?thesis by blast
qed

theorem recorded_without_limit_witness:
  "limit_size (new_helper False 0 0) = 0 \<and>
   \<not> NeedRecord (new_helper False 0 0) \<and>
   (\<exists>h'. Malloc False (new_helper False 0 0) 0 10 False
           \<lparr>m_status = gpuSuccess, m_ptr = 4096, m_last = gpuSuccess\<rparr>
         = Inr (gpuSuccess, 4096, h') \<and>
         RecordedSize h' = RecordedSize (new_helper False 0 0) + 10 \<and> \<not> NeedRecord h')"
proof -
  have l: "limit_size (new_helper False 0 0) = 0" by (simp add: new_helper_def)
  from recorded_without_limit [OF l, of "\<lparr>m_status = gpuSuccess, m_ptr = 4096, m_last = gpuSuccess\<rparr>"
      False 0 10 False] l
  show ?thesis by simp
qed

section \<open>Driver errors\<close>

lemma RaiseNonOutOfMemoryError_benign:
  assumes "st = gpuSuccess \<or> st = gpuErrorOutOfMemory"
      and "pe = gpuSuccess \<or> pe = gpuErrorOutOfMemory"
  shows "RaiseNonOutOfMemoryError st pe = Inr (gpuSuccess, [GetLastError])"
  using assms
  by (auto simp: RaiseNonOutOfMemoryError_def PADDLE_ENFORCE_GPU_SUCCESS_def Let_def)

lemma Malloc_codes:
  assumes "Malloc testing h ptr sz managed r = Inr (c, p, h')"
  shows "c = gpuSuccess \<or> c = gpuErrorOutOfMemory"
  using assms
  by (auto simp: Malloc_def Let_def split: if_splits sum.splits prod.splits)

text \<open>
  C4. When the limit check lets the request through and the driver's allocation fails:
  if the driver reported out of memory (and the pending error read back by
  \<^verbatim>\<open>GpuGetLastError\<close>, which clears it, is that error or none), \<open>Malloc\<close> returns
  \<^verbatim>\<open>gpuErrorOutOfMemory\<close> with the recorded size unchanged; for any other code,
  of the call or pending, \<open>Malloc\<close> raises and does not return. In all cases a code
  that \<open>Malloc\<close> returns is \<^verbatim>\<open>gpuSuccess\<close> or \<^verbatim>\<open>gpuErrorOutOfMemory\<close>.
\<close>

theorem Malloc_failure_normalized:
  "(\<not> (NeedRecord h \<and> cur_size h + sz > limit_size h) \<and>
    m_status r = gpuErrorOutOfMemory \<and> (m_last r = gpuSuccess \<or> m_last r = gpuErrorOutOfMemory)
      \<longrightarrow> Malloc testing h ptr sz managed r =
            Inr (gpuErrorOutOfMemory, m_ptr r,
                 emit [DeviceGuardEnter (dev_id h), CaptureModeGuard,
                       if managed then CudaMallocManaged sz else CudaMalloc sz,
                       GetLastError, DeviceGuardExit (dev_id h)] h)) \<and>
   (\<not> (NeedRecord h \<and> cur_size h + sz > limit_size h) \<and>
    m_status r \<noteq> gpuSuccess \<and> m_status r \<noteq> gpuErrorOutOfMemory
      \<longrightarrow> Malloc testing h ptr sz managed r = Inl (ExternalError (m_status r))) \<and>
   (\<not> (NeedRecord h \<and> cur_size h + sz > limit_size h) \<and>
    m_status r = gpuErrorOutOfMemory \<and> m_last r \<noteq> gpuSuccess \<and> m_last r \<noteq> gpuErrorOutOfMemory
      \<longrightarrow> Malloc testing h ptr sz managed r = Inl (ExternalError (m_last r))) \<and>
   (\<forall>c p h'. Malloc testing h ptr sz managed r = Inr (c, p, h')
      \<longrightarrow> c = gpuSuccess \<or> c = gpuErrorOutOfMemory)"
proof (intro conjI allI impI)
  assume "\<not> (NeedRecord h \<and> cur_size h + sz > limit_size h) \<and>
    m_status r = gpuErrorOutOfMemory \<and> (m_last r = gpuSuccess \<or> m_last r = gpuErrorOutOfMemory)"
  then show "Malloc testing h ptr sz managed r =
            Inr (gpuErrorOutOfMemory, m_ptr r,
                 emit [DeviceGuardEnter (dev_id h), CaptureModeGuard,
                       if managed then CudaMallocManaged sz else CudaMalloc sz,
                       GetLastError, DeviceGuardExit (dev_id h)] h)"
    by (auto simp: Malloc_def Let_def emit_def RaiseNonOutOfMemoryError_benign)
next
  assume "\<not> (NeedRecord h \<and> cur_size h + sz > limit_size h) \<and>
    m_status r \<noteq> gpuSuccess \<and> m_status r \<noteq> gpuErrorOutOfMemory"
  then show "Malloc testing h ptr sz managed r = Inl (ExternalError (m_status r))"
    by (auto simp: Malloc_def Let_def RaiseNonOutOfMemoryError_def PADDLE_ENFORCE_GPU_SUCCESS_def)
next
  assume "\<not> (NeedRecord h \<and> cur_size h + sz > limit_size h) \<and>
    m_status r = gpuErrorOutOfMemory \<and> m_last r \<noteq> gpuSuccess \<and> m_last r \<noteq> gpuErrorOutOfMemory"
  then show "Malloc testing h ptr sz managed r = Inl (ExternalError (m_last r))"
    by (auto simp: Malloc_def Let_def RaiseNonOutOfMemoryError_def PADDLE_ENFORCE_GPU_SUCCESS_def)
next
  fix c p h'
  assume "Malloc testing h ptr sz managed r = Inr (c, p, h')"
  then show "c = gpuSuccess \<or> c = gpuErrorOutOfMemory" by (rule Malloc_codes)
qed

theorem Malloc_failure_normalized_witness:
  "Malloc False (new_helper False 0 0) 0 64 False
      \<lparr>m_status = gpuErrorOutOfMemory, m_ptr = 0, m_last = gpuErrorOutOfMemory\<rparr>
     = Inr (gpuErrorOutOfMemory, 0,
            emit [DeviceGuardEnter 0, CaptureModeGuard, CudaMalloc 64, GetLastError,
                  DeviceGuardExit 0] (new_helper False 0 0)) \<and>
   Malloc False (new_helper False 0 0) 0 64 False
      \<lparr>m_status = gpuErrorOther 700, m_ptr = 0, m_last = gpuErrorOther 700\<rparr>
     = Inl (ExternalError (gpuErrorOther 700))"
  using Malloc_failure_normalized [of "new_helper False 0 0" 64
      "\<lparr>m_status = gpuErrorOutOfMemory, m_ptr = 0, m_last = gpuErrorOutOfMemory\<rparr>" False 0 False]
    Malloc_failure_normalized [of "new_helper False 0 0" 64
      "\<lparr>m_status = gpuErrorOther 700, m_ptr = 0, m_last = gpuErrorOther 700\<rparr>" False 0 False]
  by (simp add: NeedRecord_def new_helper_def)

text \<open>
  C5. \<open>Free\<close> answered \<^verbatim>\<open>cudaErrorCudartUnloading\<close> returns normally: it reads (and
  so clears) the pending error, leaves the recorded size as it was and makes no
  statistics update. Answered any other code but success it raises. Answered success
  it subtracts the size from the recorded size and updates the statistics.
\<close>

theorem Free_cases:
  "(err = cudaErrorCudartUnloading \<longrightarrow>
      (\<exists>h'. Free testing h ptr sz err = Inr h' \<and> cur_size h' = cur_size h \<and>
            calls h' = calls h @ [DeviceGuardEnter (dev_id h), CudaFree ptr, GetLastError,
                                  DeviceGuardExit (dev_id h)])) \<and>
   (err \<noteq> cudaErrorCudartUnloading \<and> err \<noteq> gpuSuccess \<longrightarrow>
      Free testing h ptr sz err = Inl (ExternalError err)) \<and>
   (err = gpuSuccess \<longrightarrow>
      (\<exists>h'. Free testing h ptr sz err = Inr h' \<and> cur_size h' = cur_size h - sz \<and>
            calls h' = calls h @ [DeviceGuardEnter (dev_id h), CudaFree ptr,
                                  StatUpdate Reserved (dev_id h) (- sz),
                                  MemEventReservedFree ptr (dev_id h) sz,
                                  DeviceGuardExit (dev_id h)]))"
  by (auto simp: Free_def Let_def emit_def PADDLE_ENFORCE_GPU_SUCCESS_def)

theorem Free_cases_witness:
  "(\<exists>h'. Free False (new_helper False 0 100\<lparr>cur_size := 60\<rparr>) 4096 60 cudaErrorCudartUnloading
          = Inr h' \<and> cur_size h' = 60 \<and>
          calls h' = [DeviceGuardEnter 0, CudaFree 4096, GetLastError, DeviceGuardExit 0]) \<and>
   Free False (new_helper False 0 100\<lparr>cur_size := 60\<rparr>) 4096 60 (gpuErrorOther 1)
     = Inl (ExternalError (gpuErrorOther 1)) \<and>
   (\<exists>h'. Free False (new_helper False 0 100\<lparr>cur_size := 60\<rparr>) 4096 60 gpuSuccess = Inr h' \<and>
          cur_size h' = 0)"
  using Free_cases [of cudaErrorCudartUnloading False "new_helper False 0 100\<lparr>cur_size := 60\<rparr>" 4096 60]
    Free_cases [of "gpuErrorOther 1" False "new_helper False 0 100\<lparr>cur_size := 60\<rparr>" 4096 60]
    Free_cases [of gpuSuccess False "new_helper False 0 100\<lparr>cur_size := 60\<rparr>" 4096 60]
  by (auto simp: new_helper_def)

section \<open>The memory information\<close>

text \<open>
  C3. \<open>GetMemInfo\<close> returns whenever the driver's codes are success or out of
  memory. When it returns on a helper that records, the available size is the smaller
  of the actual one and \<open>limit_size - cur_size\<close> (the difference the program computes,
  in \<^verbatim>\<open>uint64_t\<close>), the total is the smaller of the actual one and the limit, and the
  result tells whether the total is below the actual one. On a helper that does not
  record, the actual values are handed on and the result is false. The actual values
  are the driver's, the available one set to 0 when the driver's call failed.
\<close>

theorem GetMemInfo_values:
  "((g_status r = gpuSuccess \<or> g_status r = gpuErrorOutOfMemory) \<and>
    (g_last r = gpuSuccess \<or> g_last r = gpuErrorOutOfMemory)
      \<longrightarrow> (\<exists>mi h'. GetMemInfo h r = Inr (mi, h'))) \<and>
   (\<forall>mi h'. GetMemInfo h r = Inr (mi, h') \<longrightarrow>
      mi_actual_avail mi = (if g_status r = gpuSuccess then g_avail r else 0) \<and>
      mi_actual_total mi = g_total r \<and>
      (if NeedRecord h
       then mi_avail mi = min (mi_actual_avail mi) (limit_size h - cur_size h) \<and>
            mi_total mi = min (mi_actual_total mi) (limit_size h) \<and>
            mi_clamped mi = (mi_total mi < mi_actual_total mi)
       else mi_avail mi = mi_actual_avail mi \<and> mi_total mi = mi_actual_total mi \<and>
            mi_clamped mi = False))"
proof (intro conjI allI impI)
  assume "(g_status r = gpuSuccess \<or> g_status r = gpuErrorOutOfMemory) \<and>
    (g_last r = gpuSuccess \<or> g_last r = gpuErrorOutOfMemory)"
  then have "RaiseNonOutOfMemoryError (g_status r) (g_last r) = Inr (gpuSuccess, [GetLastError])"
    by (simp add: RaiseNonOutOfMemoryError_benign)
  then show "\<exists>mi h'. GetMemInfo h r = Inr (mi, h')"
    by (simp add: GetMemInfo_def Let_def)
next
  fix mi h'
  assume "GetMemInfo h r = Inr (mi, h')"
  then show "mi_actual_avail mi = (if g_status r = gpuSuccess then g_avail r else 0)"
    and "mi_actual_total mi = g_total r"
    and "if NeedRecord h
       then mi_avail mi = min (mi_actual_avail mi) (limit_size h - cur_size h) \<and>
            mi_total mi = min (mi_actual_total mi) (limit_size h) \<and>
            mi_clamped mi = (mi_total mi < mi_actual_total mi)
       else mi_avail mi = mi_actual_avail mi \<and> mi_total mi = mi_actual_total mi \<and>
            mi_clamped mi = False"
    by (auto simp: GetMemInfo_def Let_def split: sum.splits prod.splits if_splits)
qed

text \<open>
  With the limit 100 and 60 recorded, a device with 70 of 500 free is reported as 40 of
  100; without a limit it is reported as it is.
\<close>

theorem GetMemInfo_values_witness:
  "(\<exists>mi h'. GetMemInfo (new_helper False 0 100\<lparr>cur_size := 60\<rparr>)
               \<lparr>g_status = gpuSuccess, g_avail = 70, g_total = 500, g_last = gpuSuccess\<rparr>
             = Inr (mi, h') \<and>
             mi_avail mi = 40 \<and> mi_total mi = 100 \<and> mi_clamped mi = True \<and>
             mi_actual_avail mi = 70 \<and> mi_actual_total mi = 500) \<and>
   (\<exists>mi h'. GetMemInfo (new_helper False 0 0\<lparr>cur_size := 60\<rparr>)
               \<lparr>g_status = gpuSuccess, g_avail = 70, g_total = 500, g_last = gpuSuccess\<rparr>
             = Inr (mi, h') \<and>
             mi_avail mi = 70 \<and> mi_total mi = 500 \<and> mi_clamped mi = False)"
proof -
  let ?r = "\<lparr>g_status = gpuSuccess, g_avail = 70, g_total = 500, g_last = gpuSuccess\<rparr>"
  let ?h = "new_helper False 0 100\<lparr>cur_size := 60\<rparr>"
  let ?k = "new_helper False 0 0\<lparr>cur_size := 60\<rparr>"
  from GetMemInfo_values [of ?r ?h] obtain mi h' where a: "GetMemInfo ?h ?r = Inr (mi, h')"
    by auto
  from GetMemInfo_values [of ?r ?h] a
  have "mi_avail mi = 40 \<and> mi_total mi = 100 \<and> mi_clamped mi = True \<and>
        mi_actual_avail mi = 70 \<and> mi_actual_total mi = 500"
    by (simp add: NeedRecord_def new_helper_def)
  with a have 1: "\<exists>mi h'. GetMemInfo ?h ?r = Inr (mi, h') \<and>
             mi_avail mi = 40 \<and> mi_total mi = 100 \<and> mi_clamped mi = True \<and>
             mi_actual_avail mi = 70 \<and> mi_actual_total mi = 500" by blast
  from GetMemInfo_values [of ?r ?k] obtain mj k' where b: "GetMemInfo ?k ?r = Inr (mj, k')"
    by auto
  from GetMemInfo_values [of ?r ?k] b
  have "mi_avail mj = 70 \<and> mi_total mj = 500 \<and> mi_clamped mj = False"
    by (simp add: NeedRecord_def new_helper_def)
  with b have 2: "\<exists>mi h'. GetMemInfo ?k ?r = Inr (mi, h') \<and>
             mi_avail mi = 70 \<and> mi_total mi = 500 \<and> mi_clamped mi = False" by blast
  from 1 2 show ?thesis by blast
qed

text \<open>
  C10, as it is stated, says that the available size reported is the actual one
  whenever the recorded size exceeds the limit. It is not so when the recorded size is
  far above the limit. On a helper with a limit of 1 MiB, \<open>Malloc\<close> of 16 bytes followed
  by \<open>Free\<close> of that block with the size 32 (the size is the caller's, and is
  subtracted unchecked) leaves the counter at \<open>2 ^ 64 - 16\<close>; then
  \<open>limit_size - cur_size\<close> wraps to \<open>2 ^ 20 + 16\<close>, and a device reporting 8 GiB free is
  reported with 1048592 bytes available.
\<close>

theorem GetMemInfo_wrapped_counterexample:
  "Malloc False (new_helper False 0 1048576) 0 16 False
      \<lparr>m_status = gpuSuccess, m_ptr = 4096, m_last = gpuSuccess\<rparr>
     = Inr (gpuSuccess, 4096,
      (new_helper False 0 1048576
         \<lparr>cur_size := 16,
          calls := [DeviceGuardEnter 0, CaptureModeGuard, CudaMalloc 16,
                    StatUpdate Reserved 0 16, MemEventReservedAllocate 0 16,
                    DeviceGuardExit 0]\<rparr>)) \<and>
   Free False
      (new_helper False 0 1048576
         \<lparr>cur_size := 16,
          calls := [DeviceGuardEnter 0, CaptureModeGuard, CudaMalloc 16,
                    StatUpdate Reserved 0 16, MemEventReservedAllocate 0 16,
                    DeviceGuardExit 0]\<rparr>) 4096 32 gpuSuccess
     = Inr
      (new_helper False 0 1048576
         \<lparr>cur_size := - 16,
          calls := [DeviceGuardEnter 0, CaptureModeGuard, CudaMalloc 16,
                    StatUpdate Reserved 0 16, MemEventReservedAllocate 0 16,
                    DeviceGuardExit 0, DeviceGuardEnter 0, CudaFree 4096,
                    StatUpdate Reserved 0 (- 32), MemEventReservedFree 4096 0 32,
                    DeviceGuardExit 0]\<rparr>) \<and>
   NeedRecord
      (new_helper False 0 1048576
         \<lparr>cur_size := - 16,
          calls := [DeviceGuardEnter 0, CaptureModeGuard, CudaMalloc 16,
                    StatUpdate Reserved 0 16, MemEventReservedAllocate 0 16,
                    DeviceGuardExit 0, DeviceGuardEnter 0, CudaFree 4096,
                    StatUpdate Reserved 0 (- 32), MemEventReservedFree 4096 0 32,
                    DeviceGuardExit 0]\<rparr>) \<and>
   limit_size
      (new_helper False 0 1048576
         \<lparr>cur_size := - 16,
          calls := [DeviceGuardEnter 0, CaptureModeGuard, CudaMalloc 16,
                    StatUpdate Reserved 0 16, MemEventReservedAllocate 0 16,
                    DeviceGuardExit 0, DeviceGuardEnter 0, CudaFree 4096,
                    StatUpdate Reserved 0 (- 32), MemEventReservedFree 4096 0 32,
                    DeviceGuardExit 0]\<rparr>)
     < cur_size
      (new_helper False 0 1048576
         \<lparr>cur_size := - 16,
          calls := [DeviceGuardEnter 0, CaptureModeGuard, CudaMalloc 16,
                    StatUpdate Reserved 0 16, MemEventReservedAllocate 0 16,
                    DeviceGuardExit 0, DeviceGuardEnter 0, CudaFree 4096,
                    StatUpdate Reserved 0 (- 32), MemEventReservedFree 4096 0 32,
                    DeviceGuardExit 0]\<rparr>) \<and>
   GetMemInfo
      (new_helper False 0 1048576
         \<lparr>cur_size := - 16,
          calls := [DeviceGuardEnter 0, CaptureModeGuard, CudaMalloc 16,
                    StatUpdate Reserved 0 16, MemEventReservedAllocate 0 16,
                    DeviceGuardExit 0, DeviceGuardEnter 0, CudaFree 4096,
                    StatUpdate Reserved 0 (- 32), MemEventReservedFree 4096 0 32,
                    DeviceGuardExit 0]\<rparr>)
      \<lparr>g_status = gpuSuccess, g_avail = 8589934592, g_total = 17179869184,
       g_last = gpuSuccess\<rparr>
     = Inr (\<lparr>mi_avail = 1048592, mi_total = 1048576, mi_actual_avail = 8589934592,
             mi_actual_total = 17179869184, mi_clamped = True\<rparr>,
            emit [DeviceGuardEnter 0, CudaMemGetInfo, GetLastError, DeviceGuardExit 0]
      (new_helper False 0 1048576
         \<lparr>cur_size := - 16,
          calls := [DeviceGuardEnter 0, CaptureModeGuard, CudaMalloc 16,
                    StatUpdate Reserved 0 16, MemEventReservedAllocate 0 16,
                    DeviceGuardExit 0, DeviceGuardEnter 0, CudaFree 4096,
                    StatUpdate Reserved 0 (- 32), MemEventReservedFree 4096 0 32,
                    DeviceGuardExit 0]\<rparr>)) \<and>
   (1048592 :: u64) \<noteq> 8589934592"
  by (simp add: Malloc_def Free_def GetMemInfo_def new_helper_def NeedRecord_def Let_def
      emit_def RaiseNonOutOfMemoryError_def PADDLE_ENFORCE_GPU_SUCCESS_def)

text \<open>
  C10, amended. On a helper that records, \<open>limit_size - cur_size\<close> is taken in
  \<^verbatim>\<open>uint64_t\<close>: when the recorded size exceeds the limit (\<open>MemCreate\<close> adds to the
  counter with no check against the limit) the difference wraps to
  \<open>2 ^ 64 - (cur_size - limit_size)\<close>, and the available size reported is the smaller
  of the actual one and that number. It is the actual one, and not 0, provided the
  actual available size plus the excess \<open>cur_size - limit_size\<close> is at most \<open>2 ^ 64\<close>.
\<close>

theorem GetMemInfo_wrapped:
  assumes "NeedRecord h" and "limit_size h < cur_size h" and "GetMemInfo h r = Inr (mi, h')"
  shows "unat (limit_size h - cur_size h) = 2 ^ 64 - (unat (cur_size h) - unat (limit_size h)) \<and>
         mi_avail mi = min (mi_actual_avail mi) (limit_size h - cur_size h) \<and>
         (unat (mi_actual_avail mi) + (unat (cur_size h) - unat (limit_size h)) \<le> 2 ^ 64
            \<longrightarrow> mi_avail mi = mi_actual_avail mi) \<and>
         cur_size (snd (MemCreate h sz CUDA_SUCCESS)) = cur_size h + sz"
proof -
  let ?l = "limit_size h" and ?c = "cur_size h"
  from assms(2) have lt: "unat ?l < unat ?c" by (simp add: word_less_nat_alt)
  have cb: "unat ?c < 2 ^ 64" using unsigned_less [of ?c] by simp
  have w: "unat (?l - ?c) = 2 ^ 64 - (unat ?c - unat ?l)"
    using lt cb by (simp add: unat_sub_if')
  from assms(1,3) have av: "mi_avail mi = min (mi_actual_avail mi) (?l - ?c)"
    by (auto simp: GetMemInfo_def Let_def split: sum.splits prod.splits if_splits)
  have "mi_avail mi = mi_actual_avail mi"
    if "unat (mi_actual_avail mi) + (unat ?c - unat ?l) \<le> 2 ^ 64"
  proof -
    from that w have "unat (mi_actual_avail mi) \<le> unat (?l - ?c)" by simp
    then have "mi_actual_avail mi \<le> ?l - ?c" by (simp add: word_le_nat_alt)
    with av show ?thesis by (simp add: min_def)
  qed
  moreover have "cur_size (snd (MemCreate h sz CUDA_SUCCESS)) = cur_size h + sz"
    by (simp add: MemCreate_def Let_def emit_def)
  ultimately show ?thesis using w av by simp
qed

text \<open>With the limit 100 and 130 recorded, 1000 free bytes are reported as 1000.\<close>

theorem GetMemInfo_wrapped_witness:
  "NeedRecord (new_helper False 0 100\<lparr>cur_size := 130\<rparr>) \<and>
   limit_size (new_helper False 0 100\<lparr>cur_size := 130\<rparr>)
     < cur_size (new_helper False 0 100\<lparr>cur_size := 130\<rparr>) \<and>
   GetMemInfo (new_helper False 0 100\<lparr>cur_size := 130\<rparr>)
      \<lparr>g_status = gpuSuccess, g_avail = 1000, g_total = 5000, g_last = gpuSuccess\<rparr>
     = Inr (\<lparr>mi_avail = 1000, mi_total = 100, mi_actual_avail = 1000,
             mi_actual_total = 5000, mi_clamped = True\<rparr>,
            emit [DeviceGuardEnter 0, CudaMemGetInfo, GetLastError, DeviceGuardExit 0]
              (new_helper False 0 100\<lparr>cur_size := 130\<rparr>)) \<and>
   unat (limit_size (new_helper False 0 100\<lparr>cur_size := 130\<rparr>)
         - cur_size (new_helper False 0 100\<lparr>cur_size := 130\<rparr>)) = 2 ^ 64 - 30"
proof -
  let ?h = "new_helper False 0 100\<lparr>cur_size := 130\<rparr>"
  let ?r = "\<lparr>g_status = gpuSuccess, g_avail = 1000, g_total = 5000, g_last = gpuSuccess\<rparr>"
  let ?mi = "\<lparr>mi_avail = 1000, mi_total = 100, mi_actual_avail = 1000,
              mi_actual_total = 5000, mi_clamped = True\<rparr>"
  let ?h' = "emit [DeviceGuardEnter 0, CudaMemGetInfo, GetLastError, DeviceGuardExit 0] ?h"
  have a: "NeedRecord ?h" by (simp add: NeedRecord_def new_helper_def)
  have b: "limit_size ?h < cur_size ?h" by (simp add: new_helper_def)
  have c: "GetMemInfo ?h ?r = Inr (?mi, ?h')"
    by (simp add: GetMemInfo_def new_helper_def NeedRecord_def Let_def emit_def
        RaiseNonOutOfMemoryError_def PADDLE_ENFORCE_GPU_SUCCESS_def)
  from GetMemInfo_wrapped [OF a b c]
  have "unat (limit_size ?h - cur_size ?h) = 2 ^ 64 - (unat (cur_size ?h) - unat (limit_size ?h))"
    by simp
  also have "unat (cur_size ?h) - unat (limit_size ?h) = 30" by (simp add: new_helper_def)
  finally show ?thesis using a b c by simp
qed

section \<open>The sizes to reserve\<close>

lemma bit_length_le: "bit_length n \<le> k \<longleftrightarrow> n < 2 ^ k"
proof (induction n arbitrary: k rule: bit_length.induct)
  case (1 n)
  show ?case
  proof (cases "n = 0")
    case True
    then show ?thesis by (simp add: bit_length.simps)
  next
    case False
    show ?thesis
    proof (cases k)
      case 0
      with False show ?thesis by (simp add: bit_length.simps)
    next
      case (Suc j)
      from False have "bit_length n = Suc (bit_length (n div 2))"
        by (subst bit_length.simps) simp
      moreover from "1.IH" [OF False] have "bit_length (n div 2) \<le> j \<longleftrightarrow> n div 2 < 2 ^ j" .
      moreover have "n div 2 < 2 ^ j \<longleftrightarrow> n < 2 ^ Suc j" by auto
      ultimately show ?thesis using Suc by simp
    qed
  qed
qed

lemma round_to_double_exact:
  assumes "\<bar>m\<bar> < 2 ^ 53"
  shows "round_to_double m e = Double m e"
proof -
  from assms have "nat \<bar>m\<bar> < 2 ^ 53" by (simp add: nat_less_iff)
  then have "bit_length (nat \<bar>m\<bar>) \<le> 53" by (simp add: bit_length_le)
  then show ?thesis by (simp add: round_to_double_def)
qed



lemma double_trunc_floor:
  assumes "0 \<le> m"
  shows "double_trunc (Double m e) = \<lfloor>valof (Double m e)\<rfloor>"
proof (cases "0 \<le> e")
  case True
  have "\<lfloor>(of_int m :: real) * 2 ^ nat e\<rfloor> = \<lfloor>(of_int (m * 2 ^ nat e) :: real)\<rfloor>" by simp
  also have "\<dots> = m * 2 ^ nat e" by (rule floor_of_int)
  finally show ?thesis using True by (simp add: double_trunc_def valof_def)
next
  case False
  have "\<lfloor>(of_int m :: real) / 2 ^ nat (- e)\<rfloor> = \<lfloor>(of_int m :: real) / of_int (2 ^ nat (- e))\<rfloor>"
    by simp
  also have "\<dots> = m div 2 ^ nat (- e)" by (rule floor_divide_of_int_eq)
  finally have f: "\<lfloor>(of_int m :: real) / 2 ^ nat (- e)\<rfloor> = m div 2 ^ nat (- e)" .
  show ?thesis
  proof (cases "m = 0")
    case True
    with False show ?thesis by (simp add: double_trunc_def valof_def)
  next
    case nz: False
    with assms have "sgn m = 1" "\<bar>m\<bar> = m" by simp_all
    with False f show ?thesis by (simp add: double_trunc_def valof_def)
  qed
qed

lemma product_exact:
  assumes "uint a < 2 ^ 53" and "0 \<le> m" and "uint a * m < 2 ^ 53"
  shows "double_trunc (double_mult (size_t_to_double a) (Double m e))
           = \<lfloor>real_of_int (uint a) * valof (Double m e)\<rfloor>"
proof -
  have "\<bar>uint a\<bar> < 2 ^ 53" using assms(1) by simp
  then have 1: "size_t_to_double a = Double (uint a) 0"
    by (simp add: size_t_to_double_def round_to_double_exact)
  have p: "0 \<le> uint a * m" using assms(2) by simp
  then have "\<bar>uint a * m\<bar> < 2 ^ 53" using assms(3) by simp
  then have 2: "double_mult (Double (uint a) 0) (Double m e) = Double (uint a * m) e"
    by (simp add: double_mult_def round_to_double_exact)
  have "valof (Double (uint a * m) e) = real_of_int (uint a) * valof (Double m e)"
    by (simp add: valof_def)
  with double_trunc_floor [OF p, of e] 1 2 show ?thesis by simp
qed











section \<open>The base pointer\<close>

lemma set_insert_set: "set (set_insert p xs) = insert p (set xs)"
  by (induction xs) auto

lemma set_insert_sorted: "sorted_wrt (<) xs \<Longrightarrow> sorted_wrt (<) (set_insert p xs)"
  by (induction xs) (auto simp: set_insert_set)

lemma set_erase_subset: "set (set_erase p xs) \<subseteq> set xs"
  by (induction xs) auto

lemma set_erase_sorted: "sorted_wrt (<) xs \<Longrightarrow> sorted_wrt (<) (set_erase p xs)"
proof (induction xs)
  case Nil
  then show ?case by simp
next
  case (Cons a xs)
  then show ?case using set_erase_subset [of p xs] by auto
qed

lemma set_erase_set: "sorted_wrt (<) xs \<Longrightarrow> set (set_erase p xs) = set xs - {p}"
  by (induction xs) auto

text \<open>The set of addresses stays increasing through the life of a helper.\<close>

lemma gpu_ptrs_new_helper: "sorted_wrt (<) (gpu_ptrs (new_helper usage_log d lmt))"
  by (simp add: new_helper_def)

lemma gpu_ptrs_Malloc:
  assumes "Malloc testing h q sz managed r = Inr (c, p, h')" and "sorted_wrt (<) (gpu_ptrs h)"
  shows "sorted_wrt (<) (gpu_ptrs h')"
  using assms
  by (auto simp: Malloc_def Let_def emit_def set_insert_sorted
      split: if_splits sum.splits prod.splits)

lemma gpu_ptrs_Free:
  assumes "Free testing h p sz err = Inr h'" and "sorted_wrt (<) (gpu_ptrs h)"
  shows "sorted_wrt (<) (gpu_ptrs h')"
  using assms
  by (auto simp: Free_def Let_def emit_def set_erase_sorted split: if_splits sum.splits)

lemma upper_bound_begin:
  "sorted_wrt (<) xs \<Longrightarrow> upper_bound xs p = 0 \<longleftrightarrow> (\<forall>a\<in>set xs. p < a)"
  by (induction xs) auto

lemma upper_bound_pred:
  assumes "sorted_wrt (<) xs" and "upper_bound xs p \<noteq> 0"
  shows "xs ! (upper_bound xs p - 1) \<in> set xs \<and> xs ! (upper_bound xs p - 1) \<le> p \<and>
         (\<forall>a\<in>set xs. a \<le> p \<longrightarrow> a \<le> xs ! (upper_bound xs p - 1))"
  using assms
proof (induction xs)
  case Nil
  then show ?case by simp
next
  case (Cons a xs)
  from Cons.prems(2) have ap: "\<not> p < a" by (auto split: if_splits)
  from Cons.prems(1) have s: "sorted_wrt (<) xs" and al: "\<forall>b\<in>set xs. a < b" by simp_all
  show ?case
  proof (cases "upper_bound xs p = 0")
    case True
    with s have "\<forall>b\<in>set xs. p < b" by (simp add: upper_bound_begin)
    with ap True show ?thesis by auto
  next
    case False
    from Cons.IH [OF s False] have m: "xs ! (upper_bound xs p - 1) \<in> set xs"
      and le: "xs ! (upper_bound xs p - 1) \<le> p"
      and mx: "\<forall>b\<in>set xs. b \<le> p \<longrightarrow> b \<le> xs ! (upper_bound xs p - 1)" by simp_all
    from False have idx: "(a # xs) ! (upper_bound (a # xs) p - 1) = xs ! (upper_bound xs p - 1)"
      using ap by (cases "upper_bound xs p") simp_all
    from m al have "a \<le> xs ! (upper_bound xs p - 1)" by auto
    with idx m le mx show ?thesis by auto
  qed
qed

text \<open>
  C7. In a build with \<^verbatim>\<open>PADDLE_WITH_TESTING\<close>, \<open>GetBasePtr\<close> returns the greatest
  recorded address that is at most the pointer, and \<^verbatim>\<open>nullptr\<close> when there is none;
  so it returns a recorded address as it is, and in particular the address that a
  successful \<open>Malloc\<close> has just returned. In a build without, it raises
  \<open>Unimplemented\<close>. The recorded addresses form a \<^verbatim>\<open>std::set\<close>, an increasing
  sequence.
\<close>

theorem GetBasePtr_predecessor:
  assumes "sorted_wrt (<) (gpu_ptrs h)"
  shows "GetBasePtr True h ptr =
           Inr (if \<exists>a\<in>set (gpu_ptrs h). a \<le> ptr then Max {a \<in> set (gpu_ptrs h). a \<le> ptr}
                else nullptr) \<and>
         (ptr \<in> set (gpu_ptrs h) \<longrightarrow> GetBasePtr True h ptr = Inr ptr) \<and>
         (\<forall>q sz managed r p h'.
            Malloc True h q sz managed r = Inr (gpuSuccess, p, h')
              \<longrightarrow> sorted_wrt (<) (gpu_ptrs h') \<and> GetBasePtr True h' p = Inr p) \<and>
         GetBasePtr False h ptr = Inl Unimplemented"
proof -
  have main: "GetBasePtr True g x =
           Inr (if \<exists>a\<in>set (gpu_ptrs g). a \<le> x then Max {a \<in> set (gpu_ptrs g). a \<le> x}
                else nullptr)" if s: "sorted_wrt (<) (gpu_ptrs g)" for g x
  proof (cases "upper_bound (gpu_ptrs g) x = 0")
    case True
    with s have "\<forall>a\<in>set (gpu_ptrs g). x < a" by (simp add: upper_bound_begin)
    then have "\<not> (\<exists>a\<in>set (gpu_ptrs g). a \<le> x)" by auto
    with True show ?thesis by (simp add: GetBasePtr_def)
  next
    case False
    let ?m = "gpu_ptrs g ! (upper_bound (gpu_ptrs g) x - 1)"
    from upper_bound_pred [OF s False] have m: "?m \<in> set (gpu_ptrs g)" and le: "?m \<le> x"
      and mx: "\<forall>a\<in>set (gpu_ptrs g). a \<le> x \<longrightarrow> a \<le> ?m" by simp_all
    have "Max {a \<in> set (gpu_ptrs g). a \<le> x} = ?m"
      using m le mx by (intro Max_eqI) auto
    moreover from m le have "\<exists>a\<in>set (gpu_ptrs g). a \<le> x" by auto
    ultimately show ?thesis using False by (simp add: GetBasePtr_def Let_def)
  qed
  have self: "GetBasePtr True g x = Inr x"
    if s: "sorted_wrt (<) (gpu_ptrs g)" and x: "x \<in> set (gpu_ptrs g)" for g x
  proof -
    have "Max {a \<in> set (gpu_ptrs g). a \<le> x} = x"
      using x by (intro Max_eqI) auto
    with main [OF s, of x] x show ?thesis by auto
  qed
  have after: "sorted_wrt (<) (gpu_ptrs h') \<and> GetBasePtr True h' p = Inr p"
    if "Malloc True h q sz managed r = Inr (gpuSuccess, p, h')" for q sz managed r p h'
  proof -
    from that have g: "gpu_ptrs h' = set_insert p (gpu_ptrs h)"
      by (auto simp: Malloc_def Let_def emit_def split: if_splits sum.splits prod.splits)
    with assms have s: "sorted_wrt (<) (gpu_ptrs h')" by (simp add: set_insert_sorted)
    from g have "p \<in> set (gpu_ptrs h')" by (simp add: set_insert_set)
    with s self show ?thesis by simp
  qed
  show ?thesis
    using main [OF assms] self [OF assms] after by (simp add: GetBasePtr_def)
qed

text \<open>
  Two blocks at 4096 and 8192: an address between them belongs to the lower one, an
  address below both to none.
\<close>

theorem GetBasePtr_predecessor_witness:
  "sorted_wrt (<) (gpu_ptrs (new_helper False 0 0\<lparr>gpu_ptrs := [4096, 8192]\<rparr>)) \<and>
   GetBasePtr True (new_helper False 0 0\<lparr>gpu_ptrs := [4096, 8192]\<rparr>) 5000 = Inr 4096 \<and>
   GetBasePtr True (new_helper False 0 0\<lparr>gpu_ptrs := [4096, 8192]\<rparr>) 8192 = Inr 8192 \<and>
   GetBasePtr True (new_helper False 0 0\<lparr>gpu_ptrs := [4096, 8192]\<rparr>) 100 = Inr nullptr \<and>
   GetBasePtr False (new_helper False 0 0\<lparr>gpu_ptrs := [4096, 8192]\<rparr>) 5000 = Inl Unimplemented"
proof -
  let ?h = "new_helper False 0 0\<lparr>gpu_ptrs := [4096, 8192]\<rparr>"
  have s: "sorted_wrt (<) (gpu_ptrs ?h)" by (simp add: new_helper_def)
  have "GetBasePtr True ?h 5000 = Inr 4096" and "GetBasePtr True ?h 100 = Inr nullptr"
    by (simp_all add: GetBasePtr_def new_helper_def)
  moreover have mem: "8192 \<in> set (gpu_ptrs ?h)" by (simp add: new_helper_def)
  from GetBasePtr_predecessor [OF s, of 8192] mem
  have "GetBasePtr True ?h 8192 = Inr 8192" by blast
  moreover from GetBasePtr_predecessor [OF s, of 5000]
  have "GetBasePtr False ?h 5000 = Inl Unimplemented" by blast
  ultimately show ?thesis using s by blast
qed

section \<open>The table of helpers\<close>

lemma emplace_from_eq:
  "emplace_from fl dev_cnt i acc =
     acc @ map (\<lambda>k. new_helper (FLAGS_enable_gpu_memory_usage_log fl) k
                      (push_bit 20 (FLAGS_gpu_memory_limit_mb fl))) [i..dev_cnt - 1]"
proof (induction fl dev_cnt i acc rule: emplace_from.induct)
  case (1 fl dev_cnt i acc)
  show ?case
  proof (cases "i < dev_cnt")
    case True
    then have "[i..dev_cnt - 1] = i # [i + 1..dev_cnt - 1]"
      by (simp add: upto_rec1)
    with True "1.IH" show ?thesis
      by (subst emplace_from.simps) simp
  next
    case False
    then show ?thesis
      by (subst emplace_from.simps) simp
  qed
qed

lemma dev_id_new_helper: "dev_id (new_helper usage_log k lmt) = k"
  by (simp add: new_helper_def)

lemma table_of_call_once:
  assumes "table_of dev_cnt reg"
  shows "map dev_id (instances (call_once fl dev_cnt reg)) = [0..dev_cnt - 1]"
  using assms
  by (auto simp: table_of_def call_once_def emplace_from_eq comp_def dev_id_new_helper)

lemma table_of_empty_registry: "table_of dev_cnt empty_registry"
  by (simp add: table_of_def empty_registry_def)

lemma table_of_initialised:
  assumes "table_of dev_cnt reg"
  shows "table_of dev_cnt (call_once fl dev_cnt reg)"
  using table_of_call_once [OF assms, of fl] assms
  by (simp add: table_of_def call_once_def)

lemma table_length:
  assumes "map dev_id hs = [0..dev_cnt - 1]"
  shows "int (length hs) = max 0 dev_cnt"
proof -
  have "length hs = length (map dev_id hs)" by simp
  also have "\<dots> = length [0..dev_cnt - 1]" using assms by simp
  finally show ?thesis by simp
qed

lemma table_nth:
  assumes "map dev_id hs = [0..dev_cnt - 1]" and "0 \<le> d" and "d < dev_cnt"
  shows "dev_id (hs ! nat d) = d"
proof -
  from assms have n: "nat d < length hs"
    using table_length [OF assms(1)] by (simp add: nat_less_iff)
  then have "dev_id (hs ! nat d) = map dev_id hs ! nat d" by simp
  also have "\<dots> = [0..dev_cnt - 1] ! nat d" using assms(1) by simp
  also have "\<dots> = d" using assms(2,3) by simp
  finally show ?thesis .
qed

text \<open>
  C8. In a process with \<open>dev_cnt\<close> devices, \<open>Instance\<close> raises \<open>OutOfRange\<close> for an
  ordinal below 0 or not below \<open>dev_cnt\<close>, and so do \<open>RecordedGpuMalloc\<close> and
  \<open>RecordedGpuFree\<close> before reaching any helper: the table is left as the initialiser
  makes it (as it was, once initialised). For an ordinal in range \<open>Instance\<close> returns
  the entry of the table at that ordinal, which is the helper of that device.
\<close>

theorem Instance_range:
  assumes "table_of dev_cnt reg"
  shows "(d < 0 \<or> d \<ge> dev_cnt \<longrightarrow>
            Instance fl dev_cnt reg d = (Inl OutOfRange, call_once fl dev_cnt reg) \<and>
            RecordedGpuMalloc testing fl dev_cnt reg ptr sz d managed r
              = (Inl OutOfRange, call_once fl dev_cnt reg) \<and>
            RecordedGpuFree testing fl dev_cnt reg ptr sz d err
              = (Inl OutOfRange, call_once fl dev_cnt reg)) \<and>
         (0 \<le> d \<and> d < dev_cnt \<longrightarrow>
            Instance fl dev_cnt reg d = (Inr (nat d), call_once fl dev_cnt reg) \<and>
            nat d < length (instances (call_once fl dev_cnt reg)) \<and>
            dev_id (instances (call_once fl dev_cnt reg) ! nat d) = d) \<and>
         (once_flag reg \<longrightarrow> call_once fl dev_cnt reg = reg)"
proof -
  let ?reg1 = "call_once fl dev_cnt reg"
  have t: "map dev_id (instances ?reg1) = [0..dev_cnt - 1]"
    using assms by (rule table_of_call_once)
  have len: "int (length (instances ?reg1)) = max 0 dev_cnt"
    using t by (rule table_length)
  have out: "Instance fl dev_cnt reg d = (Inl OutOfRange, ?reg1)" if "d < 0 \<or> d \<ge> dev_cnt"
    using that len by (auto simp: Instance_def Let_def)
  have inr: "Instance fl dev_cnt reg d = (Inr (nat d), ?reg1)" if "0 \<le> d \<and> d < dev_cnt"
    using that len by (auto simp: Instance_def Let_def)
  have nth: "dev_id (instances ?reg1 ! nat d) = d" if "0 \<le> d \<and> d < dev_cnt"
    using that table_nth [OF t] by simp
  have lt: "nat d < length (instances ?reg1)" if "0 \<le> d \<and> d < dev_cnt"
    using that len by (simp add: nat_less_iff)
  have once: "?reg1 = reg" if "once_flag reg"
    using that by (simp add: call_once_def)
  show ?thesis
    using out inr nth lt once by (simp add: RecordedGpuMalloc_def RecordedGpuFree_def)
qed

text \<open>A process with two devices, at its first call.\<close>

theorem Instance_range_witness:
  "table_of 2 empty_registry \<and>
   fst (Instance \<lparr>FLAGS_initial_gpu_memory_in_mb = 0, FLAGS_reallocate_gpu_memory_in_mb = 0,
                  FLAGS_gpu_memory_limit_mb = 100, FLAGS_enable_gpu_memory_usage_log = False,
                  FLAGS_fraction_of_gpu_memory_to_use = Double 1 (- 1)\<rparr>
          2 empty_registry (- 1)) = Inl OutOfRange \<and>
   fst (Instance \<lparr>FLAGS_initial_gpu_memory_in_mb = 0, FLAGS_reallocate_gpu_memory_in_mb = 0,
                  FLAGS_gpu_memory_limit_mb = 100, FLAGS_enable_gpu_memory_usage_log = False,
                  FLAGS_fraction_of_gpu_memory_to_use = Double 1 (- 1)\<rparr>
          2 empty_registry 2) = Inl OutOfRange \<and>
   fst (Instance \<lparr>FLAGS_initial_gpu_memory_in_mb = 0, FLAGS_reallocate_gpu_memory_in_mb = 0,
                  FLAGS_gpu_memory_limit_mb = 100, FLAGS_enable_gpu_memory_usage_log = False,
                  FLAGS_fraction_of_gpu_memory_to_use = Double 1 (- 1)\<rparr>
          2 empty_registry 1) = Inr 1 \<and>
   fst (RecordedGpuMalloc True
          \<lparr>FLAGS_initial_gpu_memory_in_mb = 0, FLAGS_reallocate_gpu_memory_in_mb = 0,
           FLAGS_gpu_memory_limit_mb = 100, FLAGS_enable_gpu_memory_usage_log = False,
                  FLAGS_fraction_of_gpu_memory_to_use = Double 1 (- 1)\<rparr>
          2 empty_registry 0 64 2 False
          \<lparr>m_status = gpuSuccess, m_ptr = 4096, m_last = gpuSuccess\<rparr>) = Inl OutOfRange"
proof -
  let ?fl = "\<lparr>FLAGS_initial_gpu_memory_in_mb = 0, FLAGS_reallocate_gpu_memory_in_mb = 0,
              FLAGS_gpu_memory_limit_mb = 100, FLAGS_enable_gpu_memory_usage_log = False,
                  FLAGS_fraction_of_gpu_memory_to_use = Double 1 (- 1)\<rparr>"
  let ?r = "\<lparr>m_status = gpuSuccess, m_ptr = 4096, m_last = gpuSuccess\<rparr>"
  have t: "table_of 2 empty_registry" by (simp add: table_of_def empty_registry_def)
  from Instance_range [OF t, where d = "- 1" and fl = ?fl]
  have 1: "fst (Instance ?fl 2 empty_registry (- 1)) = Inl OutOfRange" by simp
  from Instance_range [OF t, where d = 2 and fl = ?fl and testing = True and ptr = 0
      and sz = 64 and managed = False and r = ?r]
  have 2: "fst (Instance ?fl 2 empty_registry 2) = Inl OutOfRange"
    and 3: "fst (RecordedGpuMalloc True ?fl 2 empty_registry 0 64 2 False ?r) = Inl OutOfRange"
    by simp_all
  from Instance_range [OF t, where d = 1 and fl = ?fl]
  have 4: "fst (Instance ?fl 2 empty_registry 1) = Inr 1" by simp
  from t 1 2 3 4 show ?thesis by blast
qed

end
